theory Spec2Isabelle
  imports Main "HOL-Library.Product_Lexorder" "HOL-Library.Log_Nat"
begin

section \<open>Data model\<close>

text \<open>
  The rows and derived records of the dashboard controller. The three streak fields
  occur in a membership row, in a leaderboard entry and in the progress statistics; the
  day counters and the completion rate occur in the last two. They are declared once
  and extended, so that every record keeps the field names of the source. The keys
  \<^verbatim>\<open>username\<close> and \<^verbatim>\<open>leetcodeUsername\<close> of a leaderboard entry, which are also
  columns of the user row, are \<open>entry_username\<close> and \<open>entry_leetcodeUsername\<close>.
\<close>

record streak_fields =
  currentStreak :: int
  longestStreak :: int
  totalPenalties :: int

record user_row =
  username :: string
  leetcodeUsername :: "string option"

text \<open>A row of \<^verbatim>\<open>challengeMember\<close>; its \<^verbatim>\<open>id\<close> column is \<open>member_id\<close> here.\<close>

record challenge_member = streak_fields +
  member_id :: string
  challengeId :: string
  isActive :: bool
  user :: user_row

record daily_result =
  memberId :: string
  completed :: bool
  submissionsCount :: nat

record day_fields = streak_fields +
  completedDays :: nat
  totalDays :: nat
  completionRate :: string

record leaderboard_entry = day_fields +
  entry_username :: string
  entry_leetcodeUsername :: "string option"

record progress_stats = day_fields +
  failedDays :: nat

type_synonym leaderboard = "leaderboard_entry list"

section \<open>Errors and the serialized payload\<close>

text \<open>
  A thrown JavaScript value. \<open>TypeError\<close> is a method call on \<^verbatim>\<open>null\<close>,
  \<open>SyntaxError\<close> is what \<^verbatim>\<open>JSON.parse\<close> throws, \<open>RedisError\<close> is a rejected
  command of the cache client (network error, timeout, error reply).
\<close>

datatype js_error = TypeError | SyntaxError | RedisError string

text \<open>
  The text stored under a key of the durable cache. \<open>Json E\<close> is the text that
  \<^verbatim>\<open>JSON.stringify\<close> produces for the leaderboard \<open>E\<close>: an array of flat objects
  of strings, \<^verbatim>\<open>null\<close> and integers, which \<^verbatim>\<open>JSON.parse\<close> reads back to an
  equal array. \<open>Malformed t\<close> is any other text \<open>t\<close>, which \<^verbatim>\<open>JSON.parse\<close> rejects;
  \<open>Malformed []\<close> is the empty string, the only falsy string.
\<close>

datatype payload = Json leaderboard | Malformed string

definition JSON_stringify :: "leaderboard \<Rightarrow> js_error + payload" where
  "JSON_stringify d = Inr (Json d)"

fun JSON_parse :: "payload \<Rightarrow> js_error + leaderboard" where
  "JSON_parse (Json d) = Inr d"
| "JSON_parse (Malformed t) = Inl SyntaxError"

text \<open>The test \<^verbatim>\<open>if (data)\<close> on the reply of a \<^verbatim>\<open>get\<close>: \<^verbatim>\<open>null\<close> and \<^verbatim>\<open>""\<close> are falsy.\<close>

fun truthy :: "payload option \<Rightarrow> bool" where
  "truthy None = False"
| "truthy (Some (Malformed t)) = (t \<noteq> [])"
| "truthy (Some (Json d)) = True"

section \<open>The durable cache service\<close>

text \<open>
  The external key/value service behind the client handle: textual key, serialized
  value, expiry deadline in milliseconds. \<open>failing = Some e\<close> is a service whose every
  command is rejected with \<open>e\<close>. A key is gone once the clock has passed its deadline.
  \<^verbatim>\<open>SET key value EX ttl\<close> is an error reply unless \<open>ttl\<close> is positive.
\<close>

record redis =
  db :: "string \<rightharpoonup> (payload \<times> int)"
  failing :: "js_error option"

definition redis_get :: "redis \<Rightarrow> int \<Rightarrow> string \<Rightarrow> js_error + payload option" where
  "redis_get r now key =
     (case failing r of
        Some e \<Rightarrow> Inl e
      | None \<Rightarrow>
          (case db r key of
             None \<Rightarrow> Inr None
           | Some (v, deadline) \<Rightarrow> if now > deadline then Inr None else Inr (Some v)))"

definition redis_set :: "redis \<Rightarrow> int \<Rightarrow> string \<Rightarrow> payload \<Rightarrow> int \<Rightarrow> (js_error + unit) \<times> redis" where
  "redis_set r now key v ttl =
     (case failing r of
        Some e \<Rightarrow> (Inl e, r)
      | None \<Rightarrow>
          if ttl \<le> 0 then (Inl (RedisError ''ERR invalid expire time in 'set' command''), r)
          else (Inr (), r\<lparr>db := (db r)(key \<mapsto> (v, now + ttl * 1000))\<rparr>))"

definition redis_del :: "redis \<Rightarrow> string \<Rightarrow> (js_error + unit) \<times> redis" where
  "redis_del r key =
     (case failing r of
        Some e \<Rightarrow> (Inl e, r)
      | None \<Rightarrow> (Inr (), r\<lparr>db := (db r)(key := None)\<rparr>))"

section \<open>config/redis.js: the client handle and its readiness flag\<close>

record mem_entry =
  data :: leaderboard
  expiresAt :: int

text \<open>
  The module-level variables of \<^verbatim>\<open>config/redis.js\<close> (\<open>redisClient\<close>, \<open>isConnected\<close>)
  and of \<^verbatim>\<open>services/cache.service.js\<close> (\<open>memoryCache\<close>).
\<close>

record cache_state =
  redisClient :: "redis option"
  isConnected :: bool
  memoryCache :: "string \<rightharpoonup> mem_entry"

definition isRedisReady :: "cache_state \<Rightarrow> bool" where
  "isRedisReady s = (redisClient s \<noteq> None \<and> isConnected s)"

definition getRedisClient :: "cache_state \<Rightarrow> redis option" where
  "getRedisClient s = redisClient s"




text \<open>
  A command sent through the handle that \<open>getRedisClient\<close> returns; on \<^verbatim>\<open>null\<close>
  the method call throws a \<open>TypeError\<close>. The commands that write return the handle's
  new service state.
\<close>

definition client_get :: "redis option \<Rightarrow> int \<Rightarrow> string \<Rightarrow> js_error + payload option" where
  "client_get c now key = (case c of None \<Rightarrow> Inl TypeError | Some r \<Rightarrow> redis_get r now key)"

definition client_set ::
  "redis option \<Rightarrow> int \<Rightarrow> string \<Rightarrow> payload \<Rightarrow> int \<Rightarrow> (js_error + unit) \<times> redis option" where
  "client_set c now key v ttl =
     (case c of
        None \<Rightarrow> (Inl TypeError, None)
      | Some r \<Rightarrow> (case redis_set r now key v ttl of (res, r') \<Rightarrow> (res, Some r')))"

definition client_del :: "redis option \<Rightarrow> string \<Rightarrow> (js_error + unit) \<times> redis option" where
  "client_del c key =
     (case c of
        None \<Rightarrow> (Inl TypeError, None)
      | Some r \<Rightarrow> (case redis_del r key of (res, r') \<Rightarrow> (res, Some r')))"












section \<open>services/cache.service.js\<close>

definition CACHE_PREFIX :: string where
  "CACHE_PREFIX = ''leaderboard:''"

definition DEFAULT_TTL :: int where
  "DEFAULT_TTL = 60"

definition buildKey :: "string \<Rightarrow> string" where
  "buildKey cid = CACHE_PREFIX @ cid"

text \<open>
  The in-memory fallback cache. \<open>now\<close> is the value of \<^verbatim>\<open>Date.now()\<close>, in
  milliseconds. A stored entry is an object and its data an array, both truthy, so that
  \<^verbatim>\<open>!entry\<close> holds for a missing key only.
\<close>

definition memoryGet :: "int \<Rightarrow> string \<Rightarrow> cache_state \<Rightarrow> leaderboard option \<times> cache_state" where
  "memoryGet now key s =
     (case memoryCache s key of
        None \<Rightarrow> (None, s)
      | Some entry \<Rightarrow>
          if now > expiresAt entry
          then (None, s\<lparr>memoryCache := (memoryCache s)(key := None)\<rparr>)
          else (Some (data entry), s))"

definition memorySet :: "int \<Rightarrow> string \<Rightarrow> leaderboard \<Rightarrow> int \<Rightarrow> cache_state \<Rightarrow> cache_state" where
  "memorySet now key d ttl s =
     s\<lparr>memoryCache := (memoryCache s)(key \<mapsto> \<lparr>data = d, expiresAt = now + ttl * 1000\<rparr>)\<rparr>"

definition memoryDel :: "string \<Rightarrow> cache_state \<Rightarrow> cache_state" where
  "memoryDel key s = s\<lparr>memoryCache := (memoryCache s)(key := None)\<rparr>"

text \<open>
  How a \<^verbatim>\<open>try\<close> block ends: with a \<^verbatim>\<open>return\<close> inside it, by running to its end,
  or with a throw, which is the \<open>Inl\<close> of the sum and goes to the \<^verbatim>\<open>catch\<close>.
\<close>

datatype 'a completion = Returned 'a | Completed

text \<open>The \<^verbatim>\<open>try\<close> block of \<open>getLeaderboardCache\<close>.\<close>

definition redis_read :: "int \<Rightarrow> string \<Rightarrow> cache_state \<Rightarrow> js_error + leaderboard option completion" where
  "redis_read now key s =
     (case client_get (getRedisClient s) now key of
        Inl err \<Rightarrow> Inl err
      | Inr d \<Rightarrow>
          if truthy d
          then (case JSON_parse (the d) of
                  Inl err \<Rightarrow> Inl err
                | Inr parsed \<Rightarrow> Inr (Returned (Some parsed)))
          else Inr (Returned None))"

text \<open>
  \<open>getLeaderboardCache\<close>: the result is \<open>Inl\<close> when the call throws (the promise
  rejects), \<open>Inr None\<close> for \<^verbatim>\<open>null\<close>. The \<^verbatim>\<open>catch\<close> logs a warning and lets the
  function go on to the fallback.
\<close>

definition getLeaderboardCache ::
  "int \<Rightarrow> string \<Rightarrow> cache_state \<Rightarrow> (js_error + leaderboard option) \<times> cache_state" where
  "getLeaderboardCache now cid s =
     (let key = buildKey cid;
          tried = (if isRedisReady s
                   then (case redis_read now key s of
                           Inl err \<Rightarrow> Completed
                         | Inr c \<Rightarrow> c)
                   else Completed)
      in case tried of
           Returned v \<Rightarrow> (Inr v, s)
         | Completed \<Rightarrow>
             (case memoryGet now key s of
                (Some memData, s') \<Rightarrow> (Inr (Some memData), s')
              | (None, s') \<Rightarrow> (Inr None, s')))"

text \<open>The \<^verbatim>\<open>try\<close> block of \<open>setLeaderboardCache\<close>.\<close>

definition redis_write ::
  "int \<Rightarrow> string \<Rightarrow> leaderboard \<Rightarrow> int \<Rightarrow> cache_state \<Rightarrow> (js_error + unit) \<times> cache_state" where
  "redis_write now key d ttl s =
     (case JSON_stringify d of
        Inl err \<Rightarrow> (Inl err, s)
      | Inr text \<Rightarrow>
          (case client_set (getRedisClient s) now key text ttl of
             (res, c') \<Rightarrow> (res, s\<lparr>redisClient := c'\<rparr>)))"

text \<open>\<open>setLeaderboardCache\<close>; the argument \<open>None\<close> for \<open>ttl\<close> is the omitted parameter.\<close>

definition setLeaderboardCache ::
  "int \<Rightarrow> string \<Rightarrow> leaderboard \<Rightarrow> int option \<Rightarrow> cache_state \<Rightarrow> (js_error + unit) \<times> cache_state" where
  "setLeaderboardCache now cid d ttl_arg s =
     (let ttl = (case ttl_arg of None \<Rightarrow> DEFAULT_TTL | Some t \<Rightarrow> t);
          key = buildKey cid;
          s1 = memorySet now key d ttl s
      in if isRedisReady s1
         then (case redis_write now key d ttl s1 of
                 (Inl err, s2) \<Rightarrow> (Inr (), s2)
               | (Inr u, s2) \<Rightarrow> (Inr (), s2))
         else (Inr (), s1))"

text \<open>The \<^verbatim>\<open>try\<close> block of \<open>invalidateLeaderboardCache\<close>.\<close>

definition redis_delete :: "string \<Rightarrow> cache_state \<Rightarrow> (js_error + unit) \<times> cache_state" where
  "redis_delete key s =
     (case client_del (getRedisClient s) key of
        (res, c') \<Rightarrow> (res, s\<lparr>redisClient := c'\<rparr>))"

definition invalidateLeaderboardCache ::
  "string \<Rightarrow> cache_state \<Rightarrow> (js_error + unit) \<times> cache_state" where
  "invalidateLeaderboardCache cid s =
     (let key = buildKey cid;
          s1 = memoryDel key s
      in if isRedisReady s1
         then (case redis_delete key s1 of
                 (Inl err, s2) \<Rightarrow> (Inr (), s2)
               | (Inr u, s2) \<Rightarrow> (Inr (), s2))
         else (Inr (), s1))"

section \<open>JavaScript numbers\<close>

text \<open>
  A JavaScript number is an IEEE 754 binary64 value; the finite ones are rationals.
  \<open>binary64 x\<close> is the double nearest to \<open>x\<close>, ties going to the even significand: with
  \<open>2 powi e \<le> \<bar>x\<bar> < 2 powi (e + 1)\<close> the doubles around \<open>x\<close> are the multiples of
  \<open>2 powi (e - 52)\<close>. The exponent range of the format (\<open>-1022 \<le> e \<le> 1023\<close>) is not
  modelled: the operands below are quotients of two array lengths and their products
  with 100. The operators \<^verbatim>\<open>/\<close> and \<^verbatim>\<open>*\<close> round the exact result once.
\<close>

definition rne :: "rat \<Rightarrow> int" where
  "rne y = (let n = \<lfloor>y\<rfloor>; r = y - of_int n
            in if r < 1 / 2 then n else if 1 / 2 < r then n + 1 else if even n then n else n + 1)"

definition ilog2 :: "rat \<Rightarrow> int" where
  "ilog2 x = (case quotient_of x of (p, q) \<Rightarrow>
                let d = bitlen p - bitlen q in if x < 2 powi d then d - 1 else d)"

definition binary64 :: "rat \<Rightarrow> rat" where
  "binary64 x = (if x = 0 then 0
                 else let a = \<bar>x\<bar>; u = 2 powi (ilog2 a - 52)
                      in sgn x * of_int (rne (a / u)) * u)"

definition js_div :: "rat \<Rightarrow> rat \<Rightarrow> rat" where
  "js_div a b = binary64 (a / b)"

definition js_mul :: "rat \<Rightarrow> rat \<Rightarrow> rat" where
  "js_mul a b = binary64 (a * b)"

text \<open>
  \<^verbatim>\<open>Number.prototype.toFixed(2)\<close>, for \<open>\<bar>x\<bar> < 10^21\<close>: the integer \<open>n\<close> with \<open>n / 100\<close>
  nearest to \<open>x\<close>, the larger one of two; then the digits of \<open>n\<close>, with a point before
  the last two.
\<close>

definition digit_of :: "nat \<Rightarrow> char" where
  "digit_of d = ''0123456789'' ! d"

fun show_nat :: "nat \<Rightarrow> string" where
  "show_nat n = (if n < 10 then [digit_of n] else show_nat (n div 10) @ [digit_of (n mod 10)])"

declare show_nat.simps [simp del]

definition toFixed2 :: "rat \<Rightarrow> string" where
  "toFixed2 x = (let n = nat \<lfloor>\<bar>x\<bar> * 100 + 1 / 2\<rfloor>
                 in (if x < 0 then ''-'' else []) @ show_nat (n div 100) @ ''.''
                    @ [digit_of (n mod 100 div 10), digit_of (n mod 10)])"

text \<open>The number that a string of digits with a decimal point denotes.\<close>

definition digit_val :: "char \<Rightarrow> nat" where
  "digit_val c = of_char c - 48"

definition read_nat :: "string \<Rightarrow> nat" where
  "read_nat ds = foldl (\<lambda>a c. 10 * a + digit_val c) 0 ds"

definition decimal_value :: "string \<Rightarrow> rat" where
  "decimal_value s =
     (let a = takeWhile (\<lambda>c. c \<noteq> CHR ''.'') s;
          b = drop 1 (dropWhile (\<lambda>c. c \<noteq> CHR ''.'') s)
      in of_nat (read_nat a) + of_nat (read_nat b) / 10 ^ length b)"

section \<open>The persistence layer\<close>

text \<open>
  The two tables that the controller queries. \<open>findManyMembers\<close> is
  \<^verbatim>\<open>prisma.challengeMember.findMany\<close> with the \<^verbatim>\<open>where\<close> and \<^verbatim>\<open>orderBy\<close> clauses of
  \<open>getChallengeLeaderboard\<close>: the rows of the challenge that are active, by
  \<open>currentStreak\<close> descending, then \<open>longestStreak\<close> descending, then \<open>totalPenalties\<close>
  ascending; rows equal on all three stay in table order. \<open>findManyResults\<close> is
  \<^verbatim>\<open>prisma.dailyResult.findMany\<close> with \<^verbatim>\<open>where: { memberId }\<close>.
\<close>

record database =
  challengeMembers :: "challenge_member list"
  dailyResults :: "daily_result list"

definition orderBy :: "'a streak_fields_scheme \<Rightarrow> int \<times> int \<times> int" where
  "orderBy m = (- currentStreak m, - longestStreak m, totalPenalties m)"

definition findManyMembers :: "database \<Rightarrow> string \<Rightarrow> challenge_member list" where
  "findManyMembers dbs cid =
     sort_key orderBy (filter (\<lambda>m. challengeId m = cid \<and> isActive m) (challengeMembers dbs))"

definition findManyResults :: "database \<Rightarrow> string \<Rightarrow> daily_result list" where
  "findManyResults dbs mid = filter (\<lambda>r. memberId r = mid) (dailyResults dbs)"

section \<open>The dashboard controller\<close>

text \<open>
  The expression
  \<^verbatim>\<open>totalDays > 0 ? (completedDays / totalDays) * 100 : 0\<close>,
  which both handlers evaluate.
\<close>

definition completionRateOf :: "nat \<Rightarrow> nat \<Rightarrow> rat" where
  "completionRateOf completedDays' totalDays' =
     (if totalDays' > 0 then js_mul (js_div (of_nat completedDays') (of_nat totalDays')) 100 else 0)"

text \<open>The callback of \<^verbatim>\<open>members.map\<close> in \<open>getChallengeLeaderboard\<close>.\<close>

definition leaderboardEntry :: "database \<Rightarrow> challenge_member \<Rightarrow> leaderboard_entry" where
  "leaderboardEntry dbs member =
     (let results = findManyResults dbs (member_id member);
          totalDays' = length results;
          completedDays' = length (filter completed results);
          completionRate' = completionRateOf completedDays' totalDays'
      in \<lparr>currentStreak = currentStreak member,
          longestStreak = longestStreak member,
          totalPenalties = totalPenalties member,
          completedDays = completedDays',
          totalDays = totalDays',
          completionRate = toFixed2 completionRate',
          entry_username = username (user member),
          entry_leetcodeUsername = leetcodeUsername (user member)\<rparr>)"

text \<open>The path of \<open>getChallengeLeaderboard\<close> after a cache miss: the query and the map.\<close>

definition queryLeaderboard :: "database \<Rightarrow> string \<Rightarrow> leaderboard" where
  "queryLeaderboard dbs cid = map (leaderboardEntry dbs) (findManyMembers dbs cid)"

datatype 'a response = Status200 'a | Status404 string | Failed js_error

text \<open>
  \<open>getChallengeLeaderboard\<close>. \<open>now\<close> and \<open>now'\<close> are the clock at the read and at the
  write of the cache. A cached array is truthy. An error would go to the error
  middleware through \<^verbatim>\<open>asyncHandler\<close>.
\<close>

definition getChallengeLeaderboard ::
  "int \<Rightarrow> int \<Rightarrow> database \<Rightarrow> string \<Rightarrow> cache_state \<Rightarrow> leaderboard response \<times> cache_state" where
  "getChallengeLeaderboard now now' dbs cid s =
     (case getLeaderboardCache now cid s of
        (Inl err, s1) \<Rightarrow> (Failed err, s1)
      | (Inr (Some cachedData), s1) \<Rightarrow> (Status200 cachedData, s1)
      | (Inr None, s1) \<Rightarrow>
          (let leaderboard = queryLeaderboard dbs cid
           in case setLeaderboardCache now' cid leaderboard None s1 of
                (Inl err, s2) \<Rightarrow> (Failed err, s2)
              | (Inr u, s2) \<Rightarrow> (Status200 leaderboard, s2)))"

text \<open>
  The statistics of \<open>getChallengeProgress\<close>. \<open>results\<close> is what
  \<^verbatim>\<open>evaluationService.getMemberDailyResults(membership.id, 100)\<close> returned.
\<close>

definition progressStats :: "challenge_member \<Rightarrow> daily_result list \<Rightarrow> progress_stats" where
  "progressStats membership results =
     (let totalDays' = length results;
          completedDays' = length (filter completed results);
          failedDays' = totalDays' - completedDays';
          completionRate' = completionRateOf completedDays' totalDays'
      in \<lparr>currentStreak = currentStreak membership,
          longestStreak = longestStreak membership,
          totalPenalties = totalPenalties membership,
          completedDays = completedDays',
          totalDays = totalDays',
          completionRate = toFixed2 completionRate',
          failedDays = failedDays'\<rparr>)"

text \<open>
  \<open>getChallengeProgress\<close>: \<open>membership\<close> is the row that \<^verbatim>\<open>findUnique\<close> returned, and
  \<open>getMemberDailyResults\<close> the function of the evaluation service.
\<close>

definition getChallengeProgress ::
  "challenge_member option \<Rightarrow> (string \<Rightarrow> nat \<Rightarrow> daily_result list) \<Rightarrow> progress_stats response" where
  "getChallengeProgress membership getMemberDailyResults =
     (case membership of
        None \<Rightarrow> Status404 ''Challenge membership not found''
      | Some m \<Rightarrow> Status200 (progressStats m (getMemberDailyResults (member_id m) 100)))"

section \<open>The properties of the ranking and of the completion rate\<close>

text \<open>The order of the ranking: \<open>a\<close> may stand before \<open>b\<close>.\<close>

definition ranks_before :: "'a streak_fields_scheme \<Rightarrow> 'b streak_fields_scheme \<Rightarrow> bool" where
  "ranks_before a b \<longleftrightarrow>
     currentStreak a > currentStreak b
     \<or> (currentStreak a = currentStreak b \<and> longestStreak a > longestStreak b)
     \<or> (currentStreak a = currentStreak b \<and> longestStreak a = longestStreak b
         \<and> totalPenalties a \<le> totalPenalties b)"

text \<open>A string of digits, a point and exactly two more digits.\<close>

definition is_digit :: "char \<Rightarrow> bool" where
  "is_digit c \<longleftrightarrow> c \<in> set ''0123456789''"

definition two_decimals :: "string \<Rightarrow> bool" where
  "two_decimals s \<longleftrightarrow>
     4 \<le> length s \<and> s ! (length s - 3) = CHR ''.''
     \<and> list_all is_digit (take (length s - 3) s) \<and> list_all is_digit (drop (length s - 2) s)"

text \<open>
  What holds of the day counters and the rate of a record: the rate is the string that
  \<^verbatim>\<open>toFixed(2)\<close> makes of the double \<^verbatim>\<open>(completedDays / totalDays) * 100\<close>, it
  denotes a number from 0 to 100, it is \<open>0.00\<close> without days, and with days it is
  within \<open>1 / 200 + 201 / 2 ^ 53\<close> of the exact percentage.
\<close>

definition rate_of_days :: "'a day_fields_scheme \<Rightarrow> bool" where
  "rate_of_days r \<longleftrightarrow>
     completedDays r \<le> totalDays r
     \<and> completionRate r = toFixed2 (completionRateOf (completedDays r) (totalDays r))
     \<and> 0 \<le> decimal_value (completionRate r) \<and> decimal_value (completionRate r) \<le> 100
     \<and> (totalDays r = 0 \<longrightarrow> completedDays r = 0 \<and> completionRate r = ''0.00''
           \<and> decimal_value (completionRate r) = 0)
     \<and> (0 < totalDays r \<longrightarrow>
           completionRateOf (completedDays r) (totalDays r)
             = binary64 (binary64 (of_nat (completedDays r) / of_nat (totalDays r)) * 100)
           \<and> \<bar>decimal_value (completionRate r)
                - 100 * of_nat (completedDays r) / of_nat (totalDays r)\<bar>
               \<le> 1 / 200 + 201 / 2 ^ 53)"

section \<open>Example data\<close>

definition alice :: leaderboard_entry where
  "alice = \<lparr>currentStreak = 5, longestStreak = 10, totalPenalties = 2,
            completedDays = 3, totalDays = 4, completionRate = ''75.00'',
            entry_username = ''alice'', entry_leetcodeUsername = Some ''alice_lc''\<rparr>"

definition redis_empty :: redis where
  "redis_empty = \<lparr>db = Map.empty, failing = None\<rparr>"

definition redis_timeout :: redis where
  "redis_timeout = \<lparr>db = Map.empty, failing = Some (RedisError ''ETIMEDOUT'')\<rparr>"

definition memory_c1 :: "string \<rightharpoonup> mem_entry" where
  "memory_c1 = [buildKey ''c1'' \<mapsto> \<lparr>data = [alice], expiresAt = 60000\<rparr>]"

text \<open>The durable cache is ready and holds nothing; the fallback store holds \<open>c1\<close>.\<close>

definition state_miss :: cache_state where
  "state_miss = \<lparr>redisClient = Some redis_empty, isConnected = True, memoryCache = memory_c1\<rparr>"

text \<open>The client counts as connected, and every command times out.\<close>

definition state_timeout :: cache_state where
  "state_timeout = \<lparr>redisClient = Some redis_timeout, isConnected = True, memoryCache = memory_c1\<rparr>"

text \<open>The client exists and is not connected yet; nothing is cached.\<close>

definition state_offline :: cache_state where
  "state_offline = \<lparr>redisClient = Some redis_empty, isConnected = False, memoryCache = Map.empty\<rparr>"




text \<open>Two members of \<open>c1\<close> with equal streaks, the one with more penalties first in the table.\<close>

definition member_bob :: challenge_member where
  "member_bob = \<lparr>currentStreak = 5, longestStreak = 10, totalPenalties = 5,
     member_id = ''m1'', challengeId = ''c1'', isActive = True,
     user = \<lparr>username = ''bob'', leetcodeUsername = None\<rparr>\<rparr>"

definition member_alice :: challenge_member where
  "member_alice = \<lparr>currentStreak = 5, longestStreak = 10, totalPenalties = 2,
     member_id = ''m2'', challengeId = ''c1'', isActive = True,
     user = \<lparr>username = ''alice'', leetcodeUsername = Some ''alice_lc''\<rparr>\<rparr>"

definition db_two :: database where
  "db_two = \<lparr>challengeMembers = [member_bob, member_alice], dailyResults = []\<rparr>"

text \<open>A member with 160 daily results, 23 of them completed.\<close>

definition member_carol :: challenge_member where
  "member_carol = \<lparr>currentStreak = 0, longestStreak = 9, totalPenalties = 137,
     member_id = ''m3'', challengeId = ''c9'', isActive = True,
     user = \<lparr>username = ''carol'', leetcodeUsername = None\<rparr>\<rparr>"

definition results_carol :: "daily_result list" where
  "results_carol =
     replicate 23 \<lparr>memberId = ''m3'', completed = True, submissionsCount = 1\<rparr>
     @ replicate 137 \<lparr>memberId = ''m3'', completed = False, submissionsCount = 0\<rparr>"

definition db_carol :: database where
  "db_carol = \<lparr>challengeMembers = [member_carol], dailyResults = results_carol\<rparr>"

section \<open>The cache manager absorbs every failure\<close>

lemma buildKey_inj: "buildKey a = buildKey b \<longleftrightarrow> a = b"
  by (simp add: buildKey_def)




lemma set_never_raises: "\<exists>s'. setLeaderboardCache now cid E ttl s = (Inr (), s')"
  by (auto simp: setLeaderboardCache_def Let_def split: prod.splits sum.splits)


text \<open>
  When the \<^verbatim>\<open>try\<close> block is not entered or throws, \<open>getLeaderboardCache\<close> is the
  read of the fallback store.
\<close>

lemma get_falls_back:
  assumes "\<not> isRedisReady s \<or> (\<exists>err. redis_read now (buildKey cid) s = Inl err)"
  shows "getLeaderboardCache now cid s =
           (Inr (fst (memoryGet now (buildKey cid) s)), snd (memoryGet now (buildKey cid) s))"
  using assms
  by (auto simp: getLeaderboardCache_def Let_def
      split: completion.splits prod.splits option.splits sum.splits)






section \<open>A miss of the durable cache is final\<close>


text \<open>
  Claim C4. When the durable cache is ready and its \<^verbatim>\<open>get\<close> succeeds with no value
  (\<^verbatim>\<open>null\<close>, or the empty string), \<open>getLeaderboardCache\<close> returns \<^verbatim>\<open>null\<close> and leaves
  the state as it is: the fallback store is not read, and a value that only the
  fallback store holds is not returned.
\<close>

theorem durable_miss_is_final:
  assumes "isRedisReady s"
    and "client_get (getRedisClient s) now (buildKey cid) = Inr d"
    and "\<not> truthy d"
  shows "getLeaderboardCache now cid s = (Inr None, s)"
  using assms by (simp add: getLeaderboardCache_def redis_read_def)

theorem durable_miss_is_final_witness:
  "isRedisReady state_miss
   \<and> client_get (getRedisClient state_miss) 1000 (buildKey ''c1'') = Inr None
   \<and> \<not> truthy None
   \<and> fst (memoryGet 1000 (buildKey ''c1'') state_miss) = Some [alice]
   \<and> getLeaderboardCache 1000 ''c1'' state_miss = (Inr None, state_miss)"
  using durable_miss_is_final [of state_miss 1000 "''c1''" None]
  by (simp add: state_miss_def isRedisReady_def getRedisClient_def client_get_def redis_get_def
      redis_empty_def memoryGet_def memory_c1_def)

section \<open>A payload that does not parse\<close>




section \<open>Keys of different challenges\<close>

text \<open>
  What \<open>getLeaderboardCache\<close> returns depends on the state only through the client's
  presence, the connection flag, the health of the service and the two entries stored
  under the key.
\<close>

lemma get_depends_on_key:
  assumes "redisClient s' = None \<longleftrightarrow> redisClient s = None"
    and "isConnected s' = isConnected s"
    and "\<And>r r'. redisClient s = Some r \<Longrightarrow> redisClient s' = Some r' \<Longrightarrow>
           failing r' = failing r \<and> db r' key = db r key"
    and "memoryCache s' key = memoryCache s key"
    and "key = buildKey cid"
  shows "fst (getLeaderboardCache now cid s') = fst (getLeaderboardCache now cid s)"
proof (cases "isRedisReady s")
  case False
  with assms(1,2) have "\<not> isRedisReady s'"
    by (auto simp: isRedisReady_def)
  with False assms(4,5) show ?thesis
    by (simp add: get_falls_back memoryGet_def split: option.splits)
next
  case True
  then obtain r where r: "redisClient s = Some r"
    by (auto simp: isRedisReady_def)
  with assms(1) obtain r' where r': "redisClient s' = Some r'"
    by auto
  from True assms(1,2) have T': "isRedisReady s'"
    by (auto simp: isRedisReady_def)
  from assms(3)[OF r r'] have f: "failing r' = failing r" and d: "db r' key = db r key"
    by simp_all
  have "redis_get r' now key = redis_get r now key"
    unfolding redis_get_def f d by (rule refl)
  then have "redis_read now key s' = redis_read now key s"
    by (simp add: redis_read_def getRedisClient_def client_get_def r r')
  with True T' assms(4,5) show ?thesis
    by (auto simp add: getLeaderboardCache_def Let_def memoryGet_def
        split: sum.splits completion.splits option.splits)
qed

text \<open>
  Claim C8. For two distinct challenge ids \<open>a\<close> and \<open>b\<close>, neither
  \<open>setLeaderboardCache a\<close> nor \<open>invalidateLeaderboardCache a\<close> changes what
  \<open>getLeaderboardCache b\<close> returns, at any time: the keys \<open>buildKey a\<close> and \<open>buildKey b\<close>
  differ.
\<close>

theorem other_challenge_unchanged:
  assumes "a \<noteq> b"
  shows "buildKey a \<noteq> buildKey b
       \<and> fst (getLeaderboardCache t b (snd (setLeaderboardCache t0 a E ttl s)))
           = fst (getLeaderboardCache t b s)
       \<and> fst (getLeaderboardCache t b (snd (invalidateLeaderboardCache a s)))
           = fst (getLeaderboardCache t b s)"
proof (intro conjI)
  from assms show k: "buildKey a \<noteq> buildKey b"
    by (simp add: buildKey_inj)
  show "fst (getLeaderboardCache t b (snd (setLeaderboardCache t0 a E ttl s)))
          = fst (getLeaderboardCache t b s)"
    by (rule get_depends_on_key[where key="buildKey b"])
      (use k in \<open>auto simp: setLeaderboardCache_def Let_def isRedisReady_def memorySet_def
        redis_write_def JSON_stringify_def getRedisClient_def client_set_def redis_set_def
        split: option.splits sum.splits prod.splits if_splits\<close>)
  show "fst (getLeaderboardCache t b (snd (invalidateLeaderboardCache a s)))
          = fst (getLeaderboardCache t b s)"
    by (rule get_depends_on_key[where key="buildKey b"])
      (use k in \<open>auto simp: invalidateLeaderboardCache_def Let_def isRedisReady_def memoryDel_def
        redis_delete_def getRedisClient_def client_del_def redis_del_def
        split: option.splits sum.splits prod.splits if_splits\<close>)
qed

theorem other_challenge_unchanged_witness:
  "''c2'' \<noteq> ''c1''
   \<and> fst (getLeaderboardCache 1000 ''c1'' (snd (setLeaderboardCache 0 ''c2'' [] None state_timeout)))
       = Inr (Some [alice])
   \<and> fst (getLeaderboardCache 1000 ''c1'' (snd (invalidateLeaderboardCache ''c2'' state_timeout)))
       = Inr (Some [alice])"
proof -
  have "client_get (getRedisClient state_timeout) 1000 (buildKey ''c1'') = Inl (RedisError ''ETIMEDOUT'')"
    by (simp add: state_timeout_def redis_timeout_def getRedisClient_def client_get_def
        redis_get_def)
  then have "redis_read 1000 (buildKey ''c1'') state_timeout = Inl (RedisError ''ETIMEDOUT'')"
    by (simp add: redis_read_def)
  then have "getLeaderboardCache 1000 ''c1'' state_timeout =
      (Inr (fst (memoryGet 1000 (buildKey ''c1'') state_timeout)),
       snd (memoryGet 1000 (buildKey ''c1'') state_timeout))"
    by (intro get_falls_back) simp
  then have "fst (getLeaderboardCache 1000 ''c1'' state_timeout) = Inr (Some [alice])"
    by (simp add: memoryGet_def state_timeout_def memory_c1_def)
  with other_challenge_unchanged [of "''c2''" "''c1''" 1000 0 "[]" None state_timeout]
  show ?thesis by simp
qed

section \<open>Invalidation is idempotent\<close>

text \<open>
  Claim C9. For every challenge id and every state, a second
  \<open>invalidateLeaderboardCache\<close> right after the first completes without error and
  leaves the state (fallback store, durable cache, connection flag) as the first call
  left it.
\<close>

theorem invalidate_idempotent:
  "invalidateLeaderboardCache cid (snd (invalidateLeaderboardCache cid s))
     = (Inr (), snd (invalidateLeaderboardCache cid s))"
  by (auto simp: invalidateLeaderboardCache_def Let_def isRedisReady_def memoryDel_def
      redis_delete_def getRedisClient_def client_del_def redis_del_def
      split: option.splits sum.splits prod.splits)

section \<open>A value that was set is read back until it expires\<close>









section \<open>The reconnection policy\<close>








section \<open>The order of the leaderboard\<close>

lemma orderBy_le: "orderBy a \<le> orderBy b \<longleftrightarrow> ranks_before a b"
  by (auto simp: orderBy_def ranks_before_def less_eq_prod_def)

lemma orderBy_entry: "orderBy (leaderboardEntry dbs m) = orderBy m"
  by (simp add: orderBy_def leaderboardEntry_def Let_def)

lemma ranks_before_entry:
  "ranks_before (leaderboardEntry dbs a) (leaderboardEntry dbs b) = ranks_before a b"
  by (simp add: orderBy_le[symmetric] orderBy_entry)

lemma sorted_query: "sorted_wrt ranks_before (queryLeaderboard dbs cid)"
proof -
  have "sorted (map orderBy (findManyMembers dbs cid))"
    by (simp add: findManyMembers_def)
  then have "sorted_wrt ranks_before (findManyMembers dbs cid)"
    by (simp add: sorted_map orderBy_le)
  then show ?thesis
    by (simp add: queryLeaderboard_def sorted_wrt_map ranks_before_entry)
qed

lemma set_query:
  "set (queryLeaderboard dbs cid)
     = leaderboardEntry dbs ` {m \<in> set (challengeMembers dbs). challengeId m = cid \<and> isActive m}"
  by (auto simp: queryLeaderboard_def findManyMembers_def)

lemma query_two:
  "queryLeaderboard db_two ''c1''
     = [leaderboardEntry db_two member_alice, leaderboardEntry db_two member_bob]"
  by (simp add: queryLeaderboard_def findManyMembers_def db_two_def member_bob_def
      member_alice_def orderBy_def less_eq_prod_def)

text \<open>
  Claim C2. The leaderboard that the query and the map produce holds one entry for
  every active member of the challenge, and it is ordered: every entry may stand before
  every later one, so every adjacent pair \<open>(a, b)\<close> has
  \<open>currentStreak a > currentStreak b\<close>, or equal current streaks and
  \<open>longestStreak a > longestStreak b\<close>, or both equal and
  \<open>totalPenalties a \<le> totalPenalties b\<close>. An entry with the values 5, 10, 2 stands before
  an entry with the values 5, 10, 5.
\<close>

theorem leaderboard_is_ranked:
  "sorted_wrt ranks_before (queryLeaderboard dbs cid)
   \<and> set (queryLeaderboard dbs cid)
       = leaderboardEntry dbs ` {m \<in> set (challengeMembers dbs). challengeId m = cid \<and> isActive m}
   \<and> (\<forall>i. Suc i < length (queryLeaderboard dbs cid) \<longrightarrow>
          ranks_before (queryLeaderboard dbs cid ! i) (queryLeaderboard dbs cid ! Suc i))
   \<and> (\<forall>i j. i < length (queryLeaderboard dbs cid) \<and> j < length (queryLeaderboard dbs cid)
          \<and> orderBy (queryLeaderboard dbs cid ! i) = (- 5, - 10, 2)
          \<and> orderBy (queryLeaderboard dbs cid ! j) = (- 5, - 10, 5) \<longrightarrow> i < j)"
proof (intro conjI allI impI)
  let ?lb = "queryLeaderboard dbs cid"
  show s: "sorted_wrt ranks_before ?lb"
    by (rule sorted_query)
  show "set ?lb
      = leaderboardEntry dbs ` {m \<in> set (challengeMembers dbs). challengeId m = cid \<and> isActive m}"
    by (rule set_query)
  show "ranks_before (?lb ! i) (?lb ! Suc i)" if "Suc i < length ?lb" for i
    using s that by (simp add: sorted_wrt_iff_nth_less)
  show "i < j" if h: "i < length ?lb \<and> j < length ?lb
          \<and> orderBy (?lb ! i) = (- 5, - 10, 2) \<and> orderBy (?lb ! j) = (- 5, - 10, 5)" for i j
  proof (rule ccontr)
    assume "\<not> i < j"
    moreover from h have "i \<noteq> j"
      by auto
    ultimately have "j < i"
      by simp
    with s h have "ranks_before (?lb ! j) (?lb ! i)"
      by (simp add: sorted_wrt_iff_nth_less)
    then have "orderBy (?lb ! j) \<le> orderBy (?lb ! i)"
      by (simp add: orderBy_le)
    with h show False
      by (simp add: less_eq_prod_def)
  qed
qed

theorem leaderboard_is_ranked_witness:
  "challengeMembers db_two = [member_bob, member_alice]
   \<and> map entry_username (queryLeaderboard db_two ''c1'') = [''alice'', ''bob'']
   \<and> map totalPenalties (queryLeaderboard db_two ''c1'') = [2, 5]
   \<and> ranks_before (queryLeaderboard db_two ''c1'' ! 0) (queryLeaderboard db_two ''c1'' ! Suc 0)"
proof -
  have "challengeMembers db_two = [member_bob, member_alice]"
    by (simp add: db_two_def)
  moreover have "map entry_username (queryLeaderboard db_two ''c1'') = [''alice'', ''bob'']"
    by (simp add: query_two leaderboardEntry_def member_alice_def member_bob_def Let_def)
  moreover have "map totalPenalties (queryLeaderboard db_two ''c1'') = [2, 5]"
    by (simp add: query_two leaderboardEntry_def member_alice_def member_bob_def Let_def)
  moreover from leaderboard_is_ranked [of db_two "''c1''"]
  have "ranks_before (queryLeaderboard db_two ''c1'' ! 0) (queryLeaderboard db_two ''c1'' ! Suc 0)"
    by (simp add: query_two)
  ultimately show ?thesis
    by simp
qed

section \<open>Rounding to a double\<close>

lemma rne_close: "\<bar>of_int (rne y) - y\<bar> \<le> 1 / 2"
proof -
  have "of_int \<lfloor>y\<rfloor> \<le> y" "y < of_int \<lfloor>y\<rfloor> + 1" by linarith+
  then show ?thesis
    by (auto simp: rne_def Let_def)
qed

lemma rne_le: assumes "y \<le> of_int k" shows "rne y \<le> k"
proof -
  from assms have fl: "\<lfloor>y\<rfloor> \<le> k" by (simp add: floor_le_iff) 
  show ?thesis
  proof (cases "\<lfloor>y\<rfloor> = k")
    case True
    have "of_int \<lfloor>y\<rfloor> \<le> y" by linarith
    with True assms have "y = of_int k" by simp
    then show ?thesis by (simp add: rne_def)
  next
    case False
    with fl have "\<lfloor>y\<rfloor> + 1 \<le> k" by simp
    moreover have "rne y \<le> \<lfloor>y\<rfloor> + 1" by (simp add: rne_def Let_def)
    ultimately show ?thesis by simp
  qed
qed

lemma rne_ge: assumes "of_int k \<le> y" shows "k \<le> rne y"
proof -
  from assms have "k \<le> \<lfloor>y\<rfloor>" by (simp add: le_floor_iff)
  moreover have "\<lfloor>y\<rfloor> \<le> rne y" by (simp add: rne_def Let_def)
  ultimately show ?thesis by simp
qed

lemma ilog2_bounds:
  assumes "0 < x"
  shows "2 powi ilog2 x \<le> x" and "x < 2 powi (ilog2 x + 1)"
proof -
  obtain p q where pq: "quotient_of x = (p, q)" by (cases "quotient_of x")
  then have q: "0 < q" and x: "x = of_int p / of_int q"
    by (auto simp: quotient_of_denom_pos quotient_of_div)
  with assms have p: "0 < p"
    by (simp add: zero_less_divide_iff)
  let ?bp = "bitlen p" and ?bq = "bitlen q"
  from bitlen_bounds[OF p] have p1: "2 ^ nat (?bp - 1) \<le> p" and p2: "p < 2 ^ nat ?bp" by auto
  from bitlen_bounds[OF q] have q1: "2 ^ nat (?bq - 1) \<le> q" and q2: "q < 2 ^ nat ?bq" by auto
  have bp: "1 \<le> ?bp" using p by (simp add: bitlen_alt_def)
  have bq: "1 \<le> ?bq" using q by (simp add: bitlen_alt_def)
  have P1: "(2::rat) powi (?bp - 1) \<le> of_int p"
  proof -
    have "(2::rat) powi (?bp - 1) = of_int (2 ^ nat (?bp - 1))" using bp by (simp add: power_int_def)
    also have "\<dots> \<le> of_int p" using p1 by (simp only: of_int_le_iff)
    finally show ?thesis .
  qed
  have P2: "of_int p < (2::rat) powi ?bp"
  proof -
    have "(of_int p :: rat) < of_int (2 ^ nat ?bp)" using p2 by (simp only: of_int_less_iff)
    also have "\<dots> = 2 powi ?bp" using bp by (simp add: power_int_def)
    finally show ?thesis .
  qed
  have Q1: "(2::rat) powi (?bq - 1) \<le> of_int q"
  proof -
    have "(2::rat) powi (?bq - 1) = of_int (2 ^ nat (?bq - 1))" using bq by (simp add: power_int_def)
    also have "\<dots> \<le> of_int q" using q1 by (simp only: of_int_le_iff)
    finally show ?thesis .
  qed
  have Q2: "of_int q < (2::rat) powi ?bq"
  proof -
    have "(of_int q :: rat) < of_int (2 ^ nat ?bq)" using q2 by (simp only: of_int_less_iff)
    also have "\<dots> = 2 powi ?bq" using bq by (simp add: power_int_def)
    finally show ?thesis .
  qed
  have qpos: "(0::rat) < of_int q" using q by simp
  have lower: "2 powi (?bp - ?bq - 1) \<le> x"
  proof -
    have "(2::rat) powi (?bp - ?bq - 1) * of_int q \<le> 2 powi (?bp - ?bq - 1) * 2 powi ?bq"
      using Q2 by (intro mult_left_mono) auto
    also have "\<dots> = 2 powi (?bp - 1)"
      by (simp flip: power_int_add)
    also have "\<dots> \<le> of_int p" by (rule P1)
    finally show ?thesis using qpos by (simp add: x pos_le_divide_eq)
  qed
  have upper: "x < 2 powi (?bp - ?bq + 1)"
  proof -
    have "of_int p < (2::rat) powi ?bp" by (rule P2)
    also have "\<dots> = 2 powi (?bp - ?bq + 1) * 2 powi (?bq - 1)"
      by (simp flip: power_int_add)
    also have "\<dots> \<le> 2 powi (?bp - ?bq + 1) * of_int q"
      using Q1 by (intro mult_left_mono) auto
    finally show ?thesis using qpos by (simp add: x pos_divide_less_eq)
  qed
  show "2 powi ilog2 x \<le> x" using lower by (auto simp: ilog2_def pq Let_def)
  show "x < 2 powi (ilog2 x + 1)" using upper by (auto simp: ilog2_def pq Let_def)
qed


lemma ilog2_less:
  assumes "0 < x" and "x < 2 powi k"
  shows "ilog2 x < k"
proof (rule ccontr)
  assume "\<not> ilog2 x < k"
  then have "(2::rat) powi k \<le> 2 powi ilog2 x"
    by (intro power_int_increasing) auto
  with ilog2_bounds(1)[OF assms(1)] assms(2) show False by simp
qed

lemma binary64_pos:
  assumes "0 < x"
  shows "binary64 x = of_int (rne (x / 2 powi (ilog2 x - 52))) * 2 powi (ilog2 x - 52)"
  using assms by (simp add: binary64_def Let_def)

lemma binary64_nonneg:
  assumes "0 \<le> x"
  shows "0 \<le> binary64 x"
proof (cases "x = 0")
  case True
  then show ?thesis by (simp add: binary64_def)
next
  case False
  with assms have x: "0 < x" by simp
  have "(0::rat) \<le> x / 2 powi (ilog2 x - 52)" using x by simp
  then have "0 \<le> rne (x / 2 powi (ilog2 x - 52))"
    using rne_ge[of 0] by simp
  then show ?thesis
    by (simp add: binary64_pos[OF x])
qed

lemma binary64_le_int:
  assumes "0 < x" and "x \<le> of_int k" and "ilog2 x \<le> 52"
  shows "binary64 x \<le> of_int k"
proof -
  let ?u = "(2::rat) powi (ilog2 x - 52)"
  have u: "0 < ?u" by simp
  have inv: "1 / ?u = of_int (2 ^ nat (52 - ilog2 x))"
    using assms(3) by (simp add: power_int_def field_simps)
  have "x / ?u \<le> of_int k / ?u"
    using assms(2) u by (simp add: divide_right_mono)
  also have "\<dots> = of_int (k * 2 ^ nat (52 - ilog2 x))"
    using inv by (simp add: field_simps)
  finally have "rne (x / ?u) \<le> k * 2 ^ nat (52 - ilog2 x)"
    by (rule rne_le)
  then have "(of_int (rne (x / ?u)) :: rat) \<le> of_int (k * 2 ^ nat (52 - ilog2 x))"
    by (simp only: of_int_le_iff)
  also have "\<dots> = of_int k / ?u"
    using inv by (simp add: field_simps)
  finally have "of_int (rne (x / ?u)) * ?u \<le> of_int k"
    using u by (simp add: pos_le_divide_eq)
  then show ?thesis
    by (simp add: binary64_pos[OF assms(1)])
qed

lemma binary64_error:
  assumes "0 < x"
  shows "\<bar>binary64 x - x\<bar> \<le> x / 2 ^ 53"
proof -
  let ?u = "(2::rat) powi (ilog2 x - 52)"
  have u: "0 < ?u" by simp
  have "binary64 x - x = (of_int (rne (x / ?u)) - x / ?u) * ?u"
    using u by (simp add: binary64_pos[OF assms] left_diff_distrib)
  then have "\<bar>binary64 x - x\<bar> = \<bar>of_int (rne (x / ?u)) - x / ?u\<bar> * ?u"
    using u by (simp add: abs_mult)
  also have "\<dots> \<le> 1 / 2 * ?u"
    using rne_close[of "x / ?u"] u by (intro mult_right_mono) auto
  also have "\<dots> = 2 powi ilog2 x / 2 ^ 53"
    by (simp add: power_int_diff)
  also have "\<dots> \<le> x / 2 ^ 53"
    using ilog2_bounds(1)[OF assms] by (simp add: divide_right_mono)
  finally show ?thesis .
qed

section \<open>The decimal rendering\<close>

lemma digit_cases: "d < 10 \<Longrightarrow> d \<in> {0, 1, 2, 3, 4, 5, 6, 7, 8, 9::nat}"
  by auto

lemma digit_val_digit_of: "d < 10 \<Longrightarrow> digit_val (digit_of d) = d"
  by (drule digit_cases) (auto simp: digit_val_def digit_of_def)

lemma digit_of_digit: "d < 10 \<Longrightarrow> is_digit (digit_of d)"
  by (drule digit_cases) (auto simp: digit_of_def is_digit_def)

lemma is_digit_not_point: "is_digit c \<Longrightarrow> c \<noteq> CHR ''.''"
  by (auto simp: is_digit_def)

lemma show_nat_digits: "list_all is_digit (show_nat n)"
proof (induction n rule: show_nat.induct)
  case (1 n)
  show ?case
  proof (cases "n < 10")
    case True
    then show ?thesis
      by (simp add: show_nat.simps[of n] digit_of_digit)
  next
    case False
    with "1.IH" show ?thesis
      by (simp add: show_nat.simps[of n] digit_of_digit)
  qed
qed

lemma show_nat_not_empty: "show_nat n \<noteq> []"
  by (subst show_nat.simps) simp

lemma show_nat_no_point: "\<forall>c\<in>set (show_nat n). c \<noteq> CHR ''.''"
  using show_nat_digits[of n] by (auto simp: list_all_iff is_digit_not_point)

lemma read_nat_snoc: "read_nat (ds @ [c]) = 10 * read_nat ds + digit_val c"
  by (simp add: read_nat_def)

lemma read_show_nat: "read_nat (show_nat n) = n"
proof (induction n rule: show_nat.induct)
  case (1 n)
  show ?case
  proof (cases "n < 10")
    case True
    then show ?thesis
      by (simp add: show_nat.simps[of n] read_nat_def digit_val_digit_of)
  next
    case False
    with "1.IH" show ?thesis
      by (simp add: show_nat.simps[of n] read_nat_snoc digit_val_digit_of)
  qed
qed

lemma toFixed2_nonneg:
  assumes "0 \<le> x"
  shows "toFixed2 x = show_nat (nat \<lfloor>x * 100 + 1 / 2\<rfloor> div 100) @ ''.''
      @ [digit_of (nat \<lfloor>x * 100 + 1 / 2\<rfloor> mod 100 div 10),
         digit_of (nat \<lfloor>x * 100 + 1 / 2\<rfloor> mod 10)]"
  using assms by (simp add: toFixed2_def Let_def)

lemma toFixed2_zero: "toFixed2 0 = ''0.00''"
  by (simp add: toFixed2_def show_nat.simps[of 0] digit_of_def)

lemma two_decimals_parts:
  assumes "ds \<noteq> []" and "list_all is_digit ds" and "is_digit d1" and "is_digit d2"
  shows "two_decimals (ds @ ''.'' @ [d1, d2])"
  using assms by (cases ds) (simp_all add: two_decimals_def nth_append)

lemma two_decimals_toFixed2:
  assumes "0 \<le> x"
  shows "two_decimals (toFixed2 x)"
  unfolding toFixed2_nonneg[OF assms]
  by (intro two_decimals_parts show_nat_not_empty show_nat_digits digit_of_digit) simp_all

lemma decimal_value_parts:
  assumes "\<forall>c\<in>set ds. c \<noteq> CHR ''.''"
  shows "decimal_value (ds @ ''.'' @ fs)
           = of_nat (read_nat ds) + of_nat (read_nat fs) / 10 ^ length fs"
  using assms by (simp add: decimal_value_def takeWhile_append2 dropWhile_append2)

lemma two_digits: "10 * (n mod 100 div 10) + n mod 10 = n mod 100" for n :: nat
proof -
  have "n mod 100 mod 10 = n mod 10"
    by (simp add: mod_mod_cancel)
  with mult_div_mod_eq[of 10 "n mod 100"] show ?thesis
    by simp
qed

lemma decimal_value_toFixed2:
  assumes "0 \<le> x"
  shows "decimal_value (toFixed2 x) = of_int \<lfloor>x * 100 + 1 / 2\<rfloor> / 100"
proof -
  define n where "n = nat \<lfloor>x * 100 + 1 / 2\<rfloor>"
  have "0 \<le> \<lfloor>x * 100 + 1 / 2\<rfloor>"
    using assms by simp
  then have n: "(of_nat n :: rat) = of_int \<lfloor>x * 100 + 1 / 2\<rfloor>"
    by (simp add: n_def)
  have tf: "toFixed2 x
      = show_nat (n div 100) @ ''.'' @ [digit_of (n mod 100 div 10), digit_of (n mod 10)]"
    unfolding n_def by (rule toFixed2_nonneg[OF assms])
  have frac: "read_nat [digit_of (n mod 100 div 10), digit_of (n mod 10)] = n mod 100"
    by (simp add: read_nat_def digit_val_digit_of two_digits)
  have "decimal_value (toFixed2 x) =
      of_nat (read_nat (show_nat (n div 100)))
      + of_nat (read_nat [digit_of (n mod 100 div 10), digit_of (n mod 10)])
        / 10 ^ length [digit_of (n mod 100 div 10), digit_of (n mod 10)]"
    unfolding tf by (rule decimal_value_parts[OF show_nat_no_point])
  also have "\<dots> = of_nat (n div 100) + of_nat (n mod 100) / 100"
    by (simp only: frac read_show_nat) simp
  also have "\<dots> = of_nat (100 * (n div 100) + n mod 100) / 100"
    by (simp only: of_nat_add of_nat_mult add_divide_distrib)
  also have "\<dots> = of_nat n / 100"
    by simp
  finally show ?thesis
    by (simp only: n)
qed

lemma round2_close: "\<bar>of_int \<lfloor>x * 100 + 1 / 2\<rfloor> / 100 - x\<bar> \<le> 1 / 200" for x :: rat
proof -
  define a :: rat where "a = of_int \<lfloor>x * 100 + 1 / 2\<rfloor>"
  have "a \<le> x * 100 + 1 / 2" "x * 100 + 1 / 2 < a + 1"
    unfolding a_def by linarith+
  then have "\<bar>a / 100 - x\<bar> \<le> 1 / 200"
    by linarith
  then show ?thesis
    by (simp only: a_def)
qed

lemma round2_range:
  assumes "0 \<le> x" and "x \<le> 100"
  shows "0 \<le> of_int \<lfloor>x * 100 + 1 / 2\<rfloor> / (100::rat)"
    and "of_int \<lfloor>x * 100 + 1 / 2\<rfloor> / (100::rat) \<le> 100"
proof -
  from assms(1) have "0 \<le> \<lfloor>x * 100 + 1 / 2\<rfloor>"
    by simp
  then show "0 \<le> of_int \<lfloor>x * 100 + 1 / 2\<rfloor> / (100::rat)"
    by simp
  from assms(2) have "x * 100 + 1 / 2 < 10001"
    by simp
  then have "\<lfloor>x * 100 + 1 / 2\<rfloor> < 10001"
    by (simp add: floor_less_iff)
  then have "\<lfloor>x * 100 + 1 / 2\<rfloor> \<le> 10000"
    by simp
  then have "(of_int \<lfloor>x * 100 + 1 / 2\<rfloor> :: rat) \<le> of_int 10000"
    by (simp only: of_int_le_iff)
  then show "of_int \<lfloor>x * 100 + 1 / 2\<rfloor> / (100::rat) \<le> 100"
    by simp
qed

section \<open>The completion rate\<close>

lemma completionRateOf_zero: "completionRateOf c 0 = 0"
  by (simp add: completionRateOf_def)

lemma js_div_unit:
  assumes "0 < t" and "c \<le> t"
  shows "0 \<le> js_div (of_nat c) (of_nat t)" and "js_div (of_nat c) (of_nat t) \<le> 1"
    and "\<bar>js_div (of_nat c) (of_nat t) - of_nat c / of_nat t\<bar> \<le> (of_nat c / of_nat t) / 2 ^ 53"
proof -
  let ?q = "of_nat c / of_nat t :: rat"
  have q0: "0 \<le> ?q"
    by simp
  have q1: "?q \<le> 1"
    using assms by simp
  show "0 \<le> js_div (of_nat c) (of_nat t)"
    unfolding js_div_def by (rule binary64_nonneg[OF q0])
  show "js_div (of_nat c) (of_nat t) \<le> 1"
  proof (cases "?q = 0")
    case True
    then show ?thesis
      by (simp add: js_div_def binary64_def)
  next
    case False
    with q0 have pos: "0 < ?q"
      by simp
    from q1 have "?q < 2 powi 1"
      by simp
    then have "ilog2 ?q < 1"
      by (rule ilog2_less[OF pos])
    then have "ilog2 ?q \<le> 52"
      by simp
    from binary64_le_int[OF pos _ this, of 1] q1 show ?thesis
      by (simp add: js_div_def)
  qed
  show "\<bar>js_div (of_nat c) (of_nat t) - ?q\<bar> \<le> ?q / 2 ^ 53"
  proof (cases "?q = 0")
    case True
    show ?thesis
      unfolding js_div_def True by (simp add: binary64_def)
  next
    case False
    with q0 have pos: "0 < ?q"
      by simp
    then show ?thesis
      unfolding js_div_def by (rule binary64_error)
  qed
qed

lemma js_mul_100:
  assumes "0 \<le> q" and "q \<le> 1"
  shows "0 \<le> js_mul q 100" and "js_mul q 100 \<le> 100"
    and "\<bar>js_mul q 100 - q * 100\<bar> \<le> q * 100 / 2 ^ 53"
proof -
  have x0: "0 \<le> q * 100"
    using assms by simp
  have x1: "q * 100 \<le> 100"
    using assms by simp
  show "0 \<le> js_mul q 100"
    unfolding js_mul_def by (rule binary64_nonneg[OF x0])
  show "js_mul q 100 \<le> 100"
  proof (cases "q = 0")
    case True
    then show ?thesis
      by (simp add: js_mul_def binary64_def)
  next
    case False
    with assms have pos: "0 < q * 100"
      by simp
    from x1 have "q * 100 < 2 powi 7"
      by simp
    then have "ilog2 (q * 100) < 7"
      by (rule ilog2_less[OF pos])
    then have "ilog2 (q * 100) \<le> 52"
      by simp
    from binary64_le_int[OF pos _ this, of 100] x1 show ?thesis
      by (simp add: js_mul_def)
  qed
  show "\<bar>js_mul q 100 - q * 100\<bar> \<le> q * 100 / 2 ^ 53"
  proof (cases "q = 0")
    case True
    then show ?thesis
      by (simp add: js_mul_def binary64_def)
  next
    case False
    with assms have pos: "0 < q * 100"
      by simp
    then show ?thesis
      unfolding js_mul_def by (rule binary64_error)
  qed
qed

lemma completionRateOf_range:
  assumes "c \<le> t"
  shows "0 \<le> completionRateOf c t" and "completionRateOf c t \<le> 100"
proof -
  show "0 \<le> completionRateOf c t"
    using js_div_unit(1,2)[OF _ assms] js_mul_100(1)
    by (simp add: completionRateOf_def)
  show "completionRateOf c t \<le> 100"
    using js_div_unit(1,2)[OF _ assms] js_mul_100(2)
    by (simp add: completionRateOf_def)
qed

lemma triangle_100: "\<bar>a - 100 * q\<bar> \<le> \<bar>a - d * 100\<bar> + 100 * \<bar>d - q\<bar>" for a d q :: rat
proof -
  have "a - 100 * q = (a - d * 100) + 100 * (d - q)"
    by (simp add: algebra_simps)
  then have "\<bar>a - 100 * q\<bar> \<le> \<bar>a - d * 100\<bar> + \<bar>100 * (d - q)\<bar>"
    by (simp only: abs_triangle_ineq)
  also have "\<bar>100 * (d - q)\<bar> = 100 * \<bar>d - q\<bar>"
    by (simp only: abs_mult abs_numeral)
  finally show ?thesis .
qed

lemma completionRateOf_error:
  assumes "0 < t" and "c \<le> t"
  shows "\<bar>completionRateOf c t - 100 * of_nat c / of_nat t\<bar> \<le> 201 / 2 ^ 53"
proof -
  let ?q = "of_nat c / of_nat t :: rat"
  let ?d = "js_div (of_nat c) (of_nat t)"
  note d = js_div_unit[OF assms]
  note m = js_mul_100[OF d(1,2)]
  have q1: "?q \<le> 1"
    using assms by simp
  have e1: "\<bar>?d - ?q\<bar> \<le> 1 / 2 ^ 53"
  proof -
    have "?q / 2 ^ 53 \<le> 1 / 2 ^ 53"
      using q1 by (intro divide_right_mono) auto
    with d(3) show ?thesis
      by linarith
  qed
  have e2: "\<bar>js_mul ?d 100 - ?d * 100\<bar> \<le> 100 / 2 ^ 53"
  proof -
    have "?d * 100 / 2 ^ 53 \<le> 100 / 2 ^ 53"
      using d(2) by (intro divide_right_mono) auto
    with m(3) show ?thesis
      by linarith
  qed
  have "\<bar>js_mul ?d 100 - 100 * ?q\<bar> \<le> \<bar>js_mul ?d 100 - ?d * 100\<bar> + 100 * \<bar>?d - ?q\<bar>"
    by (rule triangle_100)
  also have "\<dots> \<le> 100 / 2 ^ 53 + 100 * (1 / 2 ^ 53)"
    using e1 e2 by (intro add_mono mult_left_mono) auto
  also have "\<dots> \<le> 201 / 2 ^ 53"
    by simp
  finally show ?thesis
    using assms by (simp add: completionRateOf_def)
qed

lemma abs_diff_triangle: "\<bar>a - c\<bar> \<le> \<bar>a - b\<bar> + \<bar>b - c\<bar>" for a b c :: rat
proof -
  have "a - c = (a - b) + (b - c)"
    by simp
  then show ?thesis
    by (simp only: abs_triangle_ineq)
qed

lemma rate_of_daysI:
  assumes c: "completedDays r \<le> totalDays r"
    and s: "completionRate r = toFixed2 (completionRateOf (completedDays r) (totalDays r))"
  shows "rate_of_days r"
proof -
  let ?c = "completedDays r" and ?t = "totalDays r"
  let ?x = "completionRateOf ?c ?t"
  note range = completionRateOf_range[OF c]
  have dv: "decimal_value (completionRate r) = of_int \<lfloor>?x * 100 + 1 / 2\<rfloor> / 100"
    by (simp only: s decimal_value_toFixed2[OF range(1)])
  have lo: "0 \<le> decimal_value (completionRate r)"
    unfolding dv by (rule round2_range(1)[OF range])
  have hi: "decimal_value (completionRate r) \<le> 100"
    unfolding dv by (rule round2_range(2)[OF range])
  have zero: "?c = 0 \<and> completionRate r = ''0.00'' \<and> decimal_value (completionRate r) = 0"
    if "?t = 0"
  proof -
    from that c have "?c = 0"
      by simp
    moreover from that have x: "?x = 0"
      by (simp add: completionRateOf_def)
    then have "completionRate r = ''0.00''"
      by (simp only: s toFixed2_zero)
    moreover have "\<lfloor>1 / 2 :: rat\<rfloor> = 0"
      by (rule floor_unique) simp_all
    with x have "decimal_value (completionRate r) = 0"
      by (simp add: dv)
    ultimately show ?thesis
      by simp
  qed
  have pos: "?x = binary64 (binary64 (of_nat ?c / of_nat ?t) * 100)
      \<and> \<bar>decimal_value (completionRate r) - 100 * of_nat ?c / of_nat ?t\<bar> \<le> 1 / 200 + 201 / 2 ^ 53"
    if "0 < ?t"
  proof
    from that show "?x = binary64 (binary64 (of_nat ?c / of_nat ?t) * 100)"
      by (simp add: completionRateOf_def js_mul_def js_div_def)
    have "\<bar>decimal_value (completionRate r) - 100 * of_nat ?c / of_nat ?t\<bar>
        \<le> \<bar>decimal_value (completionRate r) - ?x\<bar> + \<bar>?x - 100 * of_nat ?c / of_nat ?t\<bar>"
      by (rule abs_diff_triangle)
    also have "\<dots> \<le> 1 / 200 + 201 / 2 ^ 53"
      unfolding dv by (intro add_mono round2_close completionRateOf_error[OF that c])
    finally show "\<bar>decimal_value (completionRate r) - 100 * of_nat ?c / of_nat ?t\<bar>
        \<le> 1 / 200 + 201 / 2 ^ 53" .
  qed
  from c s lo hi zero pos show ?thesis
    unfolding rate_of_days_def by blast
qed

lemma entry_days:
  "completedDays (leaderboardEntry dbs member)
     = length (filter completed (findManyResults dbs (member_id member)))"
  "totalDays (leaderboardEntry dbs member) = length (findManyResults dbs (member_id member))"
  "completionRate (leaderboardEntry dbs member)
     = toFixed2 (completionRateOf (completedDays (leaderboardEntry dbs member))
                                  (totalDays (leaderboardEntry dbs member)))"
  by (simp_all add: leaderboardEntry_def Let_def)

lemma stats_days:
  "completedDays (progressStats membership results) = length (filter completed results)"
  "totalDays (progressStats membership results) = length results"
  "failedDays (progressStats membership results)
     = length results - length (filter completed results)"
  "completionRate (progressStats membership results)
     = toFixed2 (completionRateOf (completedDays (progressStats membership results))
                                  (totalDays (progressStats membership results)))"
  by (simp_all add: progressStats_def Let_def)

lemma results_carol_counts:
  "findManyResults db_carol (member_id member_carol) = results_carol"
  "length results_carol = 160"
  "length (filter completed results_carol) = 23"
  by (simp_all add: findManyResults_def db_carol_def member_carol_def results_carol_def)

lemma rate_23_of_160: "toFixed2 (completionRateOf 23 160) = ''14.37''"
  by code_simp

lemma exact_23_of_160: "toFixed2 (100 * 23 / 160) = ''14.38''"
  by code_simp

lemma entry_carol:
  "completedDays (leaderboardEntry db_carol member_carol) = 23"
  "totalDays (leaderboardEntry db_carol member_carol) = 160"
  "completionRate (leaderboardEntry db_carol member_carol) = ''14.37''"
  by (simp_all only: entry_days results_carol_counts rate_23_of_160)

text \<open>
  Claim C5, as the claim states it, fails. A member with 160 daily results, 23 of them
  completed, has the exact percentage 14.375, which rounds to 14.38. The double
  \<^verbatim>\<open>(23 / 160) * 100\<close> is a little less than 14.375, and \<^verbatim>\<open>toFixed(2)\<close> makes
  \<open>14.37\<close> of it.
\<close>

theorem completion_rate_counterexample:
  "completedDays (leaderboardEntry db_carol member_carol) = 23
   \<and> totalDays (leaderboardEntry db_carol member_carol) = 160
   \<and> completionRate (leaderboardEntry db_carol member_carol) = ''14.37''
   \<and> (100 * 23 / 160 :: rat) = 14375 / 1000
   \<and> toFixed2 (100 * 23 / 160) = ''14.38''"
  by (intro conjI entry_carol exact_23_of_160) simp

text \<open>
  Claim C5, amended. In a leaderboard entry and in the statistics of the progress
  handler alike, \<open>completedDays \<le> totalDays\<close>; the rate is the string that
  \<^verbatim>\<open>toFixed(2)\<close> makes of the double \<^verbatim>\<open>(completedDays / totalDays) * 100\<close>; the
  number it denotes lies between 0 and 100; without daily results both counters are 0
  and the rate is \<open>0.00\<close>; with daily results the number is within
  \<open>1 / 200 + 201 / 2 ^ 53\<close> of the exact percentage, so that it is the exact percentage
  rounded to two places unless that lies within \<open>201 / 2 ^ 53\<close> of a rounding boundary.
\<close>

theorem completion_rate_bounds:
  "rate_of_days (leaderboardEntry dbs member)
   \<and> list_all rate_of_days (queryLeaderboard dbs cid)
   \<and> rate_of_days (progressStats membership results)
   \<and> (findManyResults dbs (member_id member) = [] \<longrightarrow>
        completedDays (leaderboardEntry dbs member) = 0
        \<and> totalDays (leaderboardEntry dbs member) = 0
        \<and> completionRate (leaderboardEntry dbs member) = ''0.00'')
   \<and> completedDays (progressStats membership []) = 0
   \<and> totalDays (progressStats membership []) = 0
   \<and> completionRate (progressStats membership []) = ''0.00''"
proof (intro conjI impI)
  show e: "rate_of_days (leaderboardEntry dbs m)" for m
    by (rule rate_of_daysI) (simp_all add: entry_days)
  then show "list_all rate_of_days (queryLeaderboard dbs cid)"
    by (simp add: queryLeaderboard_def list_all_iff)
  show "rate_of_days (progressStats membership results)"
    by (rule rate_of_daysI) (simp_all add: stats_days)
  show "completedDays (progressStats membership []) = 0"
    and "totalDays (progressStats membership []) = 0"
    and "completionRate (progressStats membership []) = ''0.00''"
    by (simp_all add: stats_days completionRateOf_zero toFixed2_zero)
next
  assume e: "findManyResults dbs (member_id member) = []"
  then show "completedDays (leaderboardEntry dbs member) = 0"
    and "totalDays (leaderboardEntry dbs member) = 0"
    and "completionRate (leaderboardEntry dbs member) = ''0.00''"
    by (simp_all add: entry_days completionRateOf_zero toFixed2_zero)
qed

theorem completion_rate_bounds_witness:
  "totalDays (leaderboardEntry db_carol member_carol) = 160
   \<and> completedDays (leaderboardEntry db_carol member_carol) = 23
   \<and> completionRate (leaderboardEntry db_carol member_carol) = ''14.37''
   \<and> rate_of_days (leaderboardEntry db_carol member_carol)
   \<and> findManyResults db_two (member_id member_alice) = []
   \<and> totalDays (leaderboardEntry db_two member_alice) = 0
   \<and> completionRate (leaderboardEntry db_two member_alice) = ''0.00''"
proof -
  have e: "findManyResults db_two (member_id member_alice) = []"
    by (simp add: findManyResults_def db_two_def)
  from completion_rate_bounds [of db_carol member_carol "''c9''" member_carol "[]"]
    completion_rate_bounds [of db_two member_alice "''c1''" member_alice "[]"] e
  show ?thesis
    by (simp add: entry_carol)
qed

section \<open>The rate is a string\<close>

lemma leaderboard_on_miss:
  assumes "fst (getLeaderboardCache now cid s) = Inr None"
  shows "fst (getChallengeLeaderboard now now' dbs cid s) = Status200 (queryLeaderboard dbs cid)"
proof -
  obtain s1 where g: "getLeaderboardCache now cid s = (Inr None, s1)"
    using assms by (cases "getLeaderboardCache now cid s") simp
  obtain s2 where "setLeaderboardCache now' cid (queryLeaderboard dbs cid) None s1 = (Inr (), s2)"
    using set_never_raises by blast
  with g show ?thesis
    by (simp add: getChallengeLeaderboard_def)
qed

lemma query_two_decimals:
  "list_all (\<lambda>e. two_decimals (completionRate e)) (queryLeaderboard dbs cid)"
proof -
  have "two_decimals (completionRate (leaderboardEntry dbs m))" for m
    unfolding entry_days
    by (intro two_decimals_toFixed2 completionRateOf_range) simp
  then show ?thesis
    by (simp add: queryLeaderboard_def list_all_iff)
qed

text \<open>
  Claim C10. In every entry of the leaderboard that the handler computes and answers
  with, and in the statistics that the progress handler answers with, the field
  \<open>completionRate\<close> is a string: the digits of the rate, a point, and exactly two more
  digits, as \<^verbatim>\<open>toFixed(2)\<close> renders the rate; it is \<open>0.00\<close> when \<open>totalDays\<close> is 0. The
  fields \<open>completedDays\<close>, \<open>totalDays\<close> and \<open>failedDays\<close> are the counts themselves.
\<close>

theorem completion_rate_is_a_string:
  "(fst (getLeaderboardCache now cid s) = Inr None \<longrightarrow>
      fst (getChallengeLeaderboard now now' dbs cid s) = Status200 (queryLeaderboard dbs cid))
   \<and> list_all (\<lambda>e. two_decimals (completionRate e)) (queryLeaderboard dbs cid)
   \<and> completionRate (leaderboardEntry dbs member)
       = toFixed2 (completionRateOf (completedDays (leaderboardEntry dbs member))
                                    (totalDays (leaderboardEntry dbs member)))
   \<and> completedDays (leaderboardEntry dbs member)
       = length (filter completed (findManyResults dbs (member_id member)))
   \<and> totalDays (leaderboardEntry dbs member) = length (findManyResults dbs (member_id member))
   \<and> getChallengeProgress (Some membership) getResults
       = Status200 (progressStats membership (getResults (member_id membership) 100))
   \<and> two_decimals (completionRate (progressStats membership results))
   \<and> completionRate (progressStats membership results)
       = toFixed2 (completionRateOf (completedDays (progressStats membership results))
                                    (totalDays (progressStats membership results)))
   \<and> completedDays (progressStats membership results) = length (filter completed results)
   \<and> totalDays (progressStats membership results) = length results
   \<and> completedDays (progressStats membership results) + failedDays (progressStats membership results)
       = totalDays (progressStats membership results)
   \<and> toFixed2 (completionRateOf c 0) = ''0.00''"
proof -
  have a: "two_decimals (toFixed2 (completionRateOf (length (filter P xs)) (length xs)))"
    for P and xs :: "daily_result list"
    by (intro two_decimals_toFixed2 completionRateOf_range) simp
  show ?thesis
    by (simp add: leaderboard_on_miss query_two_decimals entry_days stats_days a
        completionRateOf_zero toFixed2_zero getChallengeProgress_def)
qed

theorem completion_rate_is_a_string_witness:
  "fst (getLeaderboardCache 0 ''c1'' state_offline) = Inr None
   \<and> map completionRate (queryLeaderboard db_two ''c1'') = [''0.00'', ''0.00'']
   \<and> map totalDays (queryLeaderboard db_two ''c1'') = [0, 0]
   \<and> fst (getChallengeLeaderboard 0 5 db_two ''c1'' state_offline)
       = Status200 (queryLeaderboard db_two ''c1'')
   \<and> completionRate (leaderboardEntry db_carol member_carol) = ''14.37''
   \<and> two_decimals ''14.37''"
proof -
  have "\<not> isRedisReady state_offline"
    by (simp add: isRedisReady_def state_offline_def)
  then have "getLeaderboardCache 0 ''c1'' state_offline =
      (Inr (fst (memoryGet 0 (buildKey ''c1'') state_offline)),
       snd (memoryGet 0 (buildKey ''c1'') state_offline))"
    by (intro get_falls_back) simp
  then have miss: "fst (getLeaderboardCache 0 ''c1'' state_offline) = Inr None"
    by (simp add: memoryGet_def state_offline_def)
  have r: "map completionRate (queryLeaderboard db_two ''c1'') = [''0.00'', ''0.00'']"
    by (simp only: query_two list.map)
      (simp add: entry_days findManyResults_def db_two_def completionRateOf_zero toFixed2_zero)
  have t: "map totalDays (queryLeaderboard db_two ''c1'') = [0, 0]"
    by (simp only: query_two list.map) (simp add: entry_days findManyResults_def db_two_def)
  have d: "two_decimals ''14.37''"
    by (simp add: two_decimals_def is_digit_def)
  from completion_rate_is_a_string
    [of 0 "''c1''" state_offline 5 db_two member_alice member_alice "\<lambda>m n. []" "[]" 0]
  have "fst (getChallengeLeaderboard 0 5 db_two ''c1'' state_offline)
      = Status200 (queryLeaderboard db_two ''c1'')"
    using miss by simp
  with miss r t d show ?thesis
    by (simp add: entry_carol)
qed

end
